theory Spec2Isabelle
  imports Complex_Main
begin

section \<open>JavaScript values as the page script uses them\<close>

text \<open>
  The leads arrive as parsed JSON (\<^verbatim>\<open>response.json()\<close>), so a field of a lead is a
  JSON scalar or is not there at all (\<^verbatim>\<open>undefined\<close>). JSON has no NaN and no
  infinities, so a number is a finite value; it is kept as a rational. Arrays and
  objects do not occur as fields of a lead and are left out.
\<close>

datatype jsval = JUndefined | JNull | JBool bool | JNum rat | JStr string

text \<open>Truthiness, as \<^verbatim>\<open>!x\<close>, \<^verbatim>\<open>x || y\<close> and \<^verbatim>\<open>x ? a : b\<close> test it.\<close>

fun truthy :: "jsval \<Rightarrow> bool" where
  "truthy JUndefined = False"
| "truthy JNull = False"
| "truthy (JBool b) = b"
| "truthy (JNum q) = (q \<noteq> 0)"
| "truthy (JStr s) = (s \<noteq> [])"

text \<open>\<^verbatim>\<open>a || b\<close>: the left operand when it is truthy, the right one otherwise.\<close>

definition js_or :: "jsval \<Rightarrow> jsval \<Rightarrow> jsval" where
  "js_or a b = (if truthy a then a else b)"

text \<open>
  ToString, as a template literal \<^verbatim>\<open>`${x}`\<close> applies it. The decimal rendering of a
  number (Number::toString) is the parameter \<open>show_num\<close> of every function that prints.
\<close>

fun to_string :: "(rat \<Rightarrow> string) \<Rightarrow> jsval \<Rightarrow> string" where
  "to_string show_num JUndefined = ''undefined''"
| "to_string show_num JNull = ''null''"
| "to_string show_num (JBool b) = (if b then ''true'' else ''false'')"
| "to_string show_num (JNum q) = show_num q"
| "to_string show_num (JStr s) = s"

text \<open>\<^verbatim>\<open>Array.prototype.join\<close> on an array of strings.\<close>

fun join_str :: "string \<Rightarrow> string list \<Rightarrow> string" where
  "join_str sep [] = []"
| "join_str sep [x] = x"
| "join_str sep (x # y # ys) = x @ sep @ join_str sep (y # ys)"

text \<open>
  \<^verbatim>\<open>Array.prototype.join\<close> on an array of values: an element that is
  \<^verbatim>\<open>undefined\<close> or \<^verbatim>\<open>null\<close> contributes the empty string, every other one
  its ToString.
\<close>

fun join_elem :: "(rat \<Rightarrow> string) \<Rightarrow> jsval \<Rightarrow> string" where
  "join_elem show_num JUndefined = []"
| "join_elem show_num JNull = []"
| "join_elem show_num v = to_string show_num v"

definition array_join :: "(rat \<Rightarrow> string) \<Rightarrow> string \<Rightarrow> jsval list \<Rightarrow> string" where
  "array_join show_num sep xs = join_str sep (map (join_elem show_num) xs)"

text \<open>
  Number::toString at the integer-valued numbers below \<open>10^21\<close>, where it prints the
  decimal digits (with a sign). It instantiates \<open>show_num\<close> in the examples, which
  contain integer-valued numbers only.
\<close>

fun digits :: "nat \<Rightarrow> string" where
  "digits n = (if n < 10 then [''0123456789'' ! n]
               else digits (n div 10) @ [''0123456789'' ! (n mod 10)])"

declare digits.simps [simp del]

definition integer_text :: "rat \<Rightarrow> string" where
  "integer_text q = (if q < 0 then ''-'' else []) @ digits (nat \<lfloor>\<bar>q\<bar>\<rfloor>)"

section \<open>The lead and the CSV export (\<^verbatim>\<open>exportToCSV\<close>)\<close>

record lead =
  name :: jsval
  address :: jsval
  phone :: jsval
  website :: jsval
  rating :: jsval
  reviews_count :: jsval
  category :: jsval

definition dquote :: char where
  "dquote = CHR 0x22"

definition comma :: char where
  "comma = CHR '',''"

definition newline :: char where
  "newline = CHR 0x0A"

text \<open>The template literal \<^verbatim>\<open>`"${x}"`\<close>: the text of \<open>x\<close> between two double quotes.\<close>

definition quoted :: "string \<Rightarrow> string" where
  "quoted s = [dquote] @ s @ [dquote]"

definition headers :: "string list" where
  "headers = [''Name'', ''Address'', ''Phone'', ''Website'', ''Rating'', ''Reviews'', ''Category'']"

text \<open>The array literal that \<^verbatim>\<open>this.leads.map\<close> builds for one lead.\<close>

definition lead_fields :: "(rat \<Rightarrow> string) \<Rightarrow> lead \<Rightarrow> jsval list" where
  "lead_fields show_num l =
     [JStr (quoted (to_string show_num (name l))),
      JStr (quoted (to_string show_num (js_or (address l) (JStr [])))),
      JStr (quoted (to_string show_num (js_or (phone l) (JStr [])))),
      JStr (quoted (to_string show_num (js_or (website l) (JStr [])))),
      js_or (rating l) (JStr []),
      js_or (reviews_count l) (JStr []),
      JStr (quoted (to_string show_num (js_or (category l) (JStr []))))]"

text \<open>The texts that \<^verbatim>\<open>join\<close> concatenates for one lead, and the row they make.\<close>

definition csv_cells :: "(rat \<Rightarrow> string) \<Rightarrow> lead \<Rightarrow> string list" where
  "csv_cells show_num l = map (join_elem show_num) (lead_fields show_num l)"

definition lead_line :: "(rat \<Rightarrow> string) \<Rightarrow> lead \<Rightarrow> string" where
  "lead_line show_num l = array_join show_num [comma] (lead_fields show_num l)"

text \<open>
  What a click on the export button does: with no leads it alerts and returns, otherwise it
  offers \<open>csvContent\<close> for download. (The name of the file, which holds the date of the
  day, and the success message, which removes itself after three seconds, are left out.)
\<close>

datatype export_outcome = Alerted string | Downloaded string

definition exportToCSV :: "(rat \<Rightarrow> string) \<Rightarrow> lead list \<Rightarrow> export_outcome" where
  "exportToCSV show_num ls =
     (if length ls = 0 then Alerted ''No leads to export''
      else Downloaded
             (join_str [newline] (join_str [comma] headers # map (lead_line show_num) ls)))"

fun exported_text :: "export_outcome \<Rightarrow> string option" where
  "exported_text (Alerted m) = None"
| "exported_text (Downloaded csv) = Some csv"

section \<open>The page and the scrape (\<^verbatim>\<open>startScraping\<close>)\<close>

record stats =
  st_total :: jsval
  st_with_phone :: jsval
  st_with_website :: jsval

text \<open>
  The element that \<^verbatim>\<open>createLeadElement(lead, index)\<close> builds is determined by the lead
  and its index; the results area holds the placeholder of \<^verbatim>\<open>clearResults\<close>, the box of
  \<^verbatim>\<open>showError\<close> with its message, or the elements of \<^verbatim>\<open>displayResults\<close>.
\<close>

datatype element = LeadElement lead nat

datatype content = Placeholder | ErrorBox string | LeadItems "element list"

text \<open>The object's field \<^verbatim>\<open>this.leads\<close> and the parts of the document the script writes.\<close>

record scraper =
  leads :: "lead list"
  resultsContent :: content
  statsDisplay :: string
  totalLeads :: jsval
  withPhone :: jsval
  withWebsite :: jsval
  loadingDisplay :: string
  scrapeBtnDisabled :: bool
  scrapeBtnText :: string
  exportSectionDisplay :: string

text \<open>The values of the three inputs of the form, which are also the body of the request.\<close>

record scrape_request =
  query :: string
  location :: string
  maxResults :: string

text \<open>
  What \<^verbatim>\<open>await fetch(...)\<close> and \<^verbatim>\<open>await response.json()\<close> give: a rejection (which
  throws), or the parsed reply with its fields \<^verbatim>\<open>error\<close>, \<^verbatim>\<open>leads\<close> and
  \<^verbatim>\<open>stats\<close>. A reply without \<^verbatim>\<open>error\<close> carries an array of leads; when it has
  no \<^verbatim>\<open>stats\<close>, \<^verbatim>\<open>updateStats\<close> throws on \<^verbatim>\<open>stats.total\<close>, after the leads
  were stored and displayed.
\<close>

record reply =
  d_error :: jsval
  d_leads :: "lead list"
  d_stats :: "stats option"

datatype outcome = Rejected | Replied reply

definition showError :: "string \<Rightarrow> scraper \<Rightarrow> scraper" where
  "showError message s = s\<lparr>resultsContent := ErrorBox message\<rparr>"

definition showLoading :: "bool \<Rightarrow> scraper \<Rightarrow> scraper" where
  "showLoading show s =
     s\<lparr>loadingDisplay := (if show then ''flex'' else ''none''),
       scrapeBtnDisabled := show,
       scrapeBtnText := (if show then ''Scraping...'' else '' Start Scraping'')\<rparr>"

definition clearResults :: "scraper \<Rightarrow> scraper" where
  "clearResults s = s\<lparr>resultsContent := Placeholder, statsDisplay := ''none''\<rparr>"

definition displayResults :: "scraper \<Rightarrow> scraper" where
  "displayResults s =
     s\<lparr>resultsContent := LeadItems (map2 LeadElement (leads s) [0..<length (leads s)])\<rparr>"

definition updateStats :: "stats \<Rightarrow> scraper \<Rightarrow> scraper" where
  "updateStats st s =
     s\<lparr>totalLeads := st_total st, withPhone := st_with_phone st,
       withWebsite := st_with_website st, statsDisplay := ''grid''\<rparr>"

definition showExportSection :: "bool \<Rightarrow> scraper \<Rightarrow> scraper" where
  "showExportSection show s = s\<lparr>exportSectionDisplay := (if show then ''block'' else ''none'')\<rparr>"

text \<open>
  \<^verbatim>\<open>startScraping\<close> up to its first \<^verbatim>\<open>await\<close>: the new page, and the request handed to
  \<^verbatim>\<open>fetch\<close> if one is.
\<close>

definition startScraping_begin :: "scrape_request \<Rightarrow> scraper \<Rightarrow> scraper \<times> scrape_request option" where
  "startScraping_begin f s =
     (if query f = [] then (showError ''Please enter a search query'' s, None)
      else (clearResults (showLoading True s), Some f))"

text \<open>
  \<^verbatim>\<open>startScraping\<close> from the answer of the request on: the \<^verbatim>\<open>try\<close> body, its
  \<^verbatim>\<open>catch\<close> and its \<^verbatim>\<open>finally\<close>, which also runs after the \<^verbatim>\<open>return\<close> of
  the error branch. (The line written to the console in the \<^verbatim>\<open>catch\<close> is left out.)
\<close>

definition generic_failure :: string where
  "generic_failure = ''An error occurred while scraping. Please try again.''"

definition startScraping_resume :: "(rat \<Rightarrow> string) \<Rightarrow> outcome \<Rightarrow> scraper \<Rightarrow> scraper" where
  "startScraping_resume show_num r s =
     (case r of
        Rejected \<Rightarrow> showLoading False (showError generic_failure s)
      | Replied d \<Rightarrow>
          if truthy (d_error d)
          then showLoading False (showError (to_string show_num (d_error d)) s)
          else (case d_stats d of
                  None \<Rightarrow>
                    showLoading False
                      (showError generic_failure (displayResults (s\<lparr>leads := d_leads d\<rparr>)))
                | Some st \<Rightarrow>
                    showLoading False
                      (showExportSection True
                         (updateStats st (displayResults (s\<lparr>leads := d_leads d\<rparr>))))))"

text \<open>
  One whole call with nothing in between: \<open>net\<close> is the server as the call sees it.
  The result is the page afterwards and the requests that were issued.
\<close>

definition startScraping ::
  "(rat \<Rightarrow> string) \<Rightarrow> (scrape_request \<Rightarrow> outcome) \<Rightarrow> scrape_request \<Rightarrow> scraper
     \<Rightarrow> scraper \<times> scrape_request list" where
  "startScraping show_num net f s =
     (case startScraping_begin f s of
        (s', None) \<Rightarrow> (s', [])
      | (s', Some r) \<Rightarrow> (startScraping_resume show_num (net r) s', [r]))"

section \<open>A session: submits and answers in any order\<close>

text \<open>
  The requests that were issued and have no answer yet are \<open>in_flight\<close>; \<open>Settle i r\<close>
  is the answer \<open>r\<close> to the request at position \<open>i\<close> among them, whichever that is.
\<close>

datatype event = Submit scrape_request | Settle nat outcome

record session =
  page :: scraper
  in_flight :: "scrape_request list"

text \<open>
  Modelled from the spec: the form \<^verbatim>\<open>scrapeForm\<close> and its submit control
  \<^verbatim>\<open>scrapeBtn\<close> are in the page template, which is not among the sources. The spec has
  the submit control disabled during a scrape as what keeps a second scrape from starting,
  so a submit is delivered to \<^verbatim>\<open>startScraping\<close> only while the control is enabled.
  An answer resumes the call that waits for it.
\<close>

fun deliver :: "(rat \<Rightarrow> string) \<Rightarrow> event \<Rightarrow> session \<Rightarrow> session" where
  "deliver show_num (Submit f) \<sigma> =
     (if scrapeBtnDisabled (page \<sigma>) then \<sigma>
      else (case startScraping_begin f (page \<sigma>) of
              (s', None) \<Rightarrow> \<sigma>\<lparr>page := s'\<rparr>
            | (s', Some r) \<Rightarrow> \<sigma>\<lparr>page := s', in_flight := in_flight \<sigma> @ [r]\<rparr>))"
| "deliver show_num (Settle i r) \<sigma> =
     (if i < length (in_flight \<sigma>)
      then \<sigma>\<lparr>page := startScraping_resume show_num r (page \<sigma>),
             in_flight := take i (in_flight \<sigma>) @ drop (Suc i) (in_flight \<sigma>)\<rparr>
      else \<sigma>)"

definition run :: "(rat \<Rightarrow> string) \<Rightarrow> event list \<Rightarrow> session \<Rightarrow> session" where
  "run show_num evs \<sigma> = fold (deliver show_num) evs \<sigma>"

section \<open>Notions the properties are stated with\<close>

text \<open>A text field counts as missing when it is not there, is \<^verbatim>\<open>null\<close> or is empty.\<close>

definition absent :: "jsval \<Rightarrow> bool" where
  "absent v = (v = JUndefined \<or> v = JNull)"

definition no_text :: "jsval \<Rightarrow> bool" where
  "no_text v = (absent v \<or> v = JStr [])"

definition whitespace :: "char \<Rightarrow> bool" where
  "whitespace c = (c \<in> {CHR '' '', CHR 0x09, CHR 0x0A, CHR 0x0B, CHR 0x0C, CHR 0x0D})"

text \<open>A scrape fails when the request throws or the reply carries a truthy \<^verbatim>\<open>error\<close>.\<close>

fun failed :: "outcome \<Rightarrow> bool" where
  "failed Rejected = True"
| "failed (Replied d) = truthy (d_error d)"

text \<open>The condition that keeps scrapes apart: at most one request without an answer, and
  the submit control disabled exactly while there is one.\<close>

definition single_flight :: "session \<Rightarrow> bool" where
  "single_flight \<sigma> =
     (length (in_flight \<sigma>) \<le> 1 \<and> (scrapeBtnDisabled (page \<sigma>) \<longleftrightarrow> in_flight \<sigma> \<noteq> []))"

section \<open>The reader of the CSV and the data it is to give back\<close>

text \<open>
  The Lead Record of the specification's data model: the name is a text; address, phone,
  website and category are texts or are missing; rating and reviews count are numbers or
  are missing.
\<close>

definition is_text :: "jsval \<Rightarrow> bool" where
  "is_text v = (case v of JStr s \<Rightarrow> True | _ \<Rightarrow> False)"

definition optional_text :: "jsval \<Rightarrow> bool" where
  "optional_text v = (absent v \<or> is_text v)"

definition optional_number :: "jsval \<Rightarrow> bool" where
  "optional_number v = (absent v \<or> (case v of JNum q \<Rightarrow> True | _ \<Rightarrow> False))"

definition lead_record :: "lead \<Rightarrow> bool" where
  "lead_record l =
     (is_text (name l) \<and> optional_text (address l) \<and> optional_text (phone l)
      \<and> optional_text (website l) \<and> optional_number (rating l)
      \<and> optional_number (reviews_count l) \<and> optional_text (category l))"

text \<open>
  The data of a Lead Record as the seven texts a CSV can carry: a text is itself, a number
  is its decimal text (0 is the text of 0, not the empty one), and a value that is missing
  is the empty text. These are taken from the fields of the lead, not from what the export
  makes of them.
\<close>

definition text_of :: "jsval \<Rightarrow> string" where
  "text_of v = (case v of JStr s \<Rightarrow> s | _ \<Rightarrow> [])"

definition number_text :: "(rat \<Rightarrow> string) \<Rightarrow> jsval \<Rightarrow> string" where
  "number_text show_num v = (case v of JNum q \<Rightarrow> show_num q | _ \<Rightarrow> [])"

definition record_texts :: "(rat \<Rightarrow> string) \<Rightarrow> lead \<Rightarrow> string list" where
  "record_texts show_num l =
     [text_of (name l), text_of (address l), text_of (phone l), text_of (website l),
      number_text show_num (rating l), number_text show_num (reviews_count l),
      text_of (category l)]"

text \<open>No text field of the lead holds a double quote; neither number of the lead is 0.\<close>

definition quote_free :: "lead \<Rightarrow> bool" where
  "quote_free l =
     (dquote \<notin> set (text_of (name l)) \<and> dquote \<notin> set (text_of (address l))
      \<and> dquote \<notin> set (text_of (phone l)) \<and> dquote \<notin> set (text_of (website l))
      \<and> dquote \<notin> set (text_of (category l)))"

definition nonzero_numbers :: "lead \<Rightarrow> bool" where
  "nonzero_numbers l = (rating l \<noteq> JNum 0 \<and> reviews_count l \<noteq> JNum 0)"

text \<open>
  The reader: RFC 4180 with the line feed as the end of a record, which is what the export
  writes. A field that starts with a double quote runs to its closing quote, two double
  quotes inside it stand for one, and commas and line feeds inside it are part of the text.
  The reader goes through the text once; its state is where it is in a field, the field and
  the record read so far (latest first) and the records completed (latest first).
\<close>

datatype csv_mode = RecordStart | FieldStart | Bare | Quoted | QuoteSeen

type_synonym csv_state = "csv_mode \<times> string \<times> string list \<times> string list list"

fun csv_feed :: "char \<Rightarrow> csv_state \<Rightarrow> csv_state" where
  "csv_feed c (m, fld, rec, recs) =
     (if m = Quoted then
        (if c = dquote then (QuoteSeen, fld, rec, recs) else (Quoted, c # fld, rec, recs))
      else if c = dquote then
        (if m = QuoteSeen then (Quoted, c # fld, rec, recs)
         else if m = Bare then (Bare, c # fld, rec, recs)
         else (Quoted, fld, rec, recs))
      else if c = comma then (FieldStart, [], rev fld # rec, recs)
      else if c = newline then (RecordStart, [], [], rev (rev fld # rec) # recs)
      else (Bare, c # fld, rec, recs))"

fun csv_finish :: "csv_state \<Rightarrow> string list list" where
  "csv_finish (m, fld, rec, recs) =
     rev (if m = RecordStart then recs else rev (rev fld # rec) # recs)"

definition spec_parse_csv :: "string \<Rightarrow> string list list" where
  "spec_parse_csv s = csv_finish (fold csv_feed s (RecordStart, [], [], []))"

text \<open>
  A text that can stand in a field without quotes around it. The text of a number is one:
  Number::toString writes digits, a point, a sign and an exponent mark only.
\<close>

definition bare_safe :: "string \<Rightarrow> bool" where
  "bare_safe s = (dquote \<notin> set s \<and> comma \<notin> set s \<and> newline \<notin> set s)"

text \<open>
  How RFC 4180 writes a text between quotes, with the quotes inside doubled, and how the
  text of a field stands for its value: between quotes, or as it is when it needs no
  quotes. A line stands for a record when its fields do and the first of them is not empty.
\<close>

definition spec_escape :: "string \<Rightarrow> string" where
  "spec_escape s = concat (map (\<lambda>c. if c = dquote then [dquote, dquote] else [c]) s)"

definition spec_quoted :: "string \<Rightarrow> string" where
  "spec_quoted s = [dquote] @ spec_escape s @ [dquote]"

definition cell_of :: "string \<Rightarrow> string \<Rightarrow> bool" where
  "cell_of c v = (c = spec_quoted v \<or> (c = v \<and> bare_safe v))"

definition line_of :: "string list \<Rightarrow> string list \<Rightarrow> bool" where
  "line_of cs vs = (list_all2 cell_of cs vs \<and> cs \<noteq> [] \<and> hd cs \<noteq> [])"

section \<open>Example data\<close>

definition cafe :: lead where
  "cafe = \<lparr>name = JStr ''Joe's Cafe'', address = JStr ''1 Main St'', phone = JStr ''555-1111'',
           website = JUndefined, rating = JNum 4, reviews_count = JNum 0, category = JNull\<rparr>"

definition fresh_page :: scraper where
  "fresh_page =
     \<lparr>leads = [], resultsContent = Placeholder, statsDisplay = ''none'',
      totalLeads = JStr ''0'', withPhone = JStr ''0'', withWebsite = JStr ''0'',
      loadingDisplay = ''none'', scrapeBtnDisabled = False,
      scrapeBtnText = '' Start Scraping'', exportSectionDisplay = ''none''\<rparr>"

definition cafes_query :: scrape_request where
  "cafes_query = \<lparr>query = ''cafes'', location = ''Pune'', maxResults = ''10''\<rparr>"

definition cafes_reply :: reply where
  "cafes_reply =
     \<lparr>d_error = JUndefined, d_leads = [cafe],
      d_stats = Some \<lparr>st_total = JNum 1, st_with_phone = JNum 1, st_with_website = JNum 0\<rparr>\<rparr>"

definition big_joe :: lead where
  "big_joe = \<lparr>name = JStr [CHR ''J'', CHR ''o'', CHR ''e'', CHR '' '', dquote, CHR ''B'', CHR ''i'', CHR ''g'',
                            dquote, CHR '' '', CHR ''C'', CHR ''a'', CHR ''f'', CHR ''e''],
              address = JUndefined, phone = JUndefined, website = JUndefined,
              rating = JNum 4, reviews_count = JNum 12, category = JUndefined\<rparr>"

definition offline :: "scrape_request \<Rightarrow> outcome" where
  "offline r = Rejected"

definition cafes_server :: "scrape_request \<Rightarrow> outcome" where
  "cafes_server r = Replied cafes_reply"

definition corner_cafe :: lead where
  "corner_cafe =
     \<lparr>name = JStr ''Joe's, Cafe'', address = JStr ''1 Main St\<newline>Pune'', phone = JStr ''555-1111'',
      website = JNull, rating = JNum 4, reviews_count = JNum 12, category = JUndefined\<rparr>"

section \<open>The export\<close>

lemma join_str_Cons: "join_str sep (x # xs) = x @ concat (map (\<lambda>y. sep @ y) xs)"
  by (induction xs arbitrary: x) auto

lemma header_line:
  "join_str [comma] headers = ''Name,Address,Phone,Website,Rating,Reviews,Category''"
  by (simp add: headers_def comma_def)

text \<open>
  C1. The claim has every double quote inside a text field doubled in the export. The code
  wraps the text in quotes as it is: the name \<^verbatim>\<open>Joe "Big" Cafe\<close> comes out as
  \<^verbatim>\<open>"Joe "Big" Cafe"\<close>, not as \<^verbatim>\<open>"Joe ""Big"" Cafe"\<close>.
\<close>

theorem export_keeps_embedded_quote:
  \<open>exportToCSV integer_text [big_joe]
     = Downloaded ''Name,Address,Phone,Website,Rating,Reviews,Category\<newline>"Joe "Big" Cafe","","","",4,12,""''
   \<and> csv_cells integer_text big_joe ! 0 = ''"Joe "Big" Cafe"''
   \<and> csv_cells integer_text big_joe ! 0 \<noteq> ''"Joe ""Big"" Cafe"''\<close>
  by (simp add: exportToCSV_def headers_def lead_line_def array_join_def csv_cells_def
      lead_fields_def big_joe_def js_or_def quoted_def dquote_def comma_def newline_def
      integer_text_def digits.simps)

text \<open>
  C4, as amended. For every collection that is not empty, the export is the header row
  \<^verbatim>\<open>Name,Address,Phone,Website,Rating,Reviews,Category\<close> followed, for each lead in the
  order of the collection and with none left out, by a line feed and the lead's seven
  fields with commas between them. (For the empty collection there is no CSV text.)
\<close>

theorem export_header_then_rows:
  "ls \<noteq> [] \<Longrightarrow>
     exportToCSV show_num ls =
       Downloaded
         (''Name,Address,Phone,Website,Rating,Reviews,Category'' @
          concat (map (\<lambda>l.
             newline # quoted (to_string show_num (name l)) @
             comma # quoted (to_string show_num (js_or (address l) (JStr []))) @
             comma # quoted (to_string show_num (js_or (phone l) (JStr []))) @
             comma # quoted (to_string show_num (js_or (website l) (JStr []))) @
             comma # join_elem show_num (js_or (rating l) (JStr [])) @
             comma # join_elem show_num (js_or (reviews_count l) (JStr [])) @
             comma # quoted (to_string show_num (js_or (category l) (JStr [])))) ls))"
  by (simp add: exportToCSV_def join_str_Cons header_line lead_line_def array_join_def
      lead_fields_def comp_def)

theorem export_header_then_rows_witness:
  \<open>[cafe] \<noteq> []
   \<and> exportToCSV integer_text [cafe]
       = Downloaded ''Name,Address,Phone,Website,Rating,Reviews,Category\<newline>"Joe's Cafe","1 Main St","555-1111","",4,,""''\<close>
  using export_header_then_rows [of "[cafe]" integer_text]
  by (simp add: cafe_def js_or_def quoted_def dquote_def comma_def newline_def integer_text_def digits.simps)

theorem export_of_nothing_is_no_header_row:
  "exportToCSV integer_text []
     \<noteq> Downloaded ''Name,Address,Phone,Website,Rating,Reviews,Category''"
  by (simp add: exportToCSV_def)

text \<open>
  C5. The export writes, for every lead of the collection, a row of seven fields with
  commas between them; in that row a text field that is missing (address, phone, website,
  category) is the empty quoted field \<^verbatim>\<open>""\<close> in its column; rating and reviews count
  are written without quotes, as the number's text, and as the empty field when the value
  is absent.
\<close>

theorem missing_fields_keep_columns:
  "exportToCSV show_num (xs @ l # ys) =
     Downloaded
       (''Name,Address,Phone,Website,Rating,Reviews,Category'' @
        concat (map (\<lambda>k. newline # lead_line show_num k) xs) @
        newline # csv_cells show_num l ! 0 @ comma # csv_cells show_num l ! 1 @
        comma # csv_cells show_num l ! 2 @ comma # csv_cells show_num l ! 3 @
        comma # csv_cells show_num l ! 4 @ comma # csv_cells show_num l ! 5 @
        comma # csv_cells show_num l ! 6 @
        concat (map (\<lambda>k. newline # lead_line show_num k) ys))
   \<and> length (csv_cells show_num l) = 7
   \<and> lead_line show_num l = join_str [comma] (csv_cells show_num l)
   \<and> (no_text (address l) \<longrightarrow> csv_cells show_num l ! 1 = [dquote, dquote])
   \<and> (no_text (phone l) \<longrightarrow> csv_cells show_num l ! 2 = [dquote, dquote])
   \<and> (no_text (website l) \<longrightarrow> csv_cells show_num l ! 3 = [dquote, dquote])
   \<and> (no_text (category l) \<longrightarrow> csv_cells show_num l ! 6 = [dquote, dquote])
   \<and> (absent (rating l) \<longrightarrow> csv_cells show_num l ! 4 = [])
   \<and> (absent (reviews_count l) \<longrightarrow> csv_cells show_num l ! 5 = [])
   \<and> (\<forall>q. q \<noteq> 0 \<longrightarrow> rating l = JNum q \<longrightarrow> csv_cells show_num l ! 4 = show_num q)
   \<and> (\<forall>q. q \<noteq> 0 \<longrightarrow> reviews_count l = JNum q \<longrightarrow> csv_cells show_num l ! 5 = show_num q)"
proof -
  have row: "lead_line show_num l = join_str [comma] (csv_cells show_num l)"
    by (simp add: lead_line_def array_join_def csv_cells_def)
  have cells: "join_str [comma] (csv_cells show_num l) =
      csv_cells show_num l ! 0 @ comma # csv_cells show_num l ! 1 @
      comma # csv_cells show_num l ! 2 @ comma # csv_cells show_num l ! 3 @
      comma # csv_cells show_num l ! 4 @ comma # csv_cells show_num l ! 5 @
      comma # csv_cells show_num l ! 6"
    by (simp add: csv_cells_def lead_fields_def)
  have "exportToCSV show_num (xs @ l # ys) =
      Downloaded
        (''Name,Address,Phone,Website,Rating,Reviews,Category'' @
         concat (map (\<lambda>k. newline # lead_line show_num k) xs) @
         newline # lead_line show_num l @
         concat (map (\<lambda>k. newline # lead_line show_num k) ys))"
    by (simp add: exportToCSV_def join_str_Cons header_line comp_def)
  then have export: "exportToCSV show_num (xs @ l # ys) =
      Downloaded
        (''Name,Address,Phone,Website,Rating,Reviews,Category'' @
         concat (map (\<lambda>k. newline # lead_line show_num k) xs) @
         newline # csv_cells show_num l ! 0 @ comma # csv_cells show_num l ! 1 @
         comma # csv_cells show_num l ! 2 @ comma # csv_cells show_num l ! 3 @
         comma # csv_cells show_num l ! 4 @ comma # csv_cells show_num l ! 5 @
         comma # csv_cells show_num l ! 6 @
         concat (map (\<lambda>k. newline # lead_line show_num k) ys))"
    by (simp only: row cells append_assoc append_Cons)
  have content: "length (csv_cells show_num l) = 7
     \<and> (no_text (address l) \<longrightarrow> csv_cells show_num l ! 1 = [dquote, dquote])
     \<and> (no_text (phone l) \<longrightarrow> csv_cells show_num l ! 2 = [dquote, dquote])
     \<and> (no_text (website l) \<longrightarrow> csv_cells show_num l ! 3 = [dquote, dquote])
     \<and> (no_text (category l) \<longrightarrow> csv_cells show_num l ! 6 = [dquote, dquote])
     \<and> (absent (rating l) \<longrightarrow> csv_cells show_num l ! 4 = [])
     \<and> (absent (reviews_count l) \<longrightarrow> csv_cells show_num l ! 5 = [])
     \<and> (\<forall>q. q \<noteq> 0 \<longrightarrow> rating l = JNum q \<longrightarrow> csv_cells show_num l ! 4 = show_num q)
     \<and> (\<forall>q. q \<noteq> 0 \<longrightarrow> reviews_count l = JNum q \<longrightarrow> csv_cells show_num l ! 5 = show_num q)"
    by (auto simp add: csv_cells_def lead_fields_def no_text_def absent_def js_or_def quoted_def)
  from export row content show ?thesis by blast
qed

theorem missing_fields_keep_columns_witness:
  \<open>no_text (website cafe) \<and> no_text (category cafe)
   \<and> absent (reviews_count (cafe\<lparr>reviews_count := JNull\<rparr>)) \<and> rating cafe = JNum 4
   \<and> exportToCSV integer_text ([] @ cafe\<lparr>reviews_count := JNull\<rparr> # [])
       = Downloaded ''Name,Address,Phone,Website,Rating,Reviews,Category\<newline>"Joe's Cafe","1 Main St","555-1111","",4,,""''
   \<and> csv_cells integer_text cafe ! 3 = ''""'' \<and> csv_cells integer_text cafe ! 6 = ''""''
   \<and> csv_cells integer_text (cafe\<lparr>reviews_count := JNull\<rparr>) ! 5 = []
   \<and> csv_cells integer_text cafe ! 4 = ''4''\<close>
proof -
  have four: "integer_text 4 = ''4''"
    by (simp add: integer_text_def digits.simps)
  have cells: \<open>csv_cells integer_text (cafe\<lparr>reviews_count := JNull\<rparr>)
      = [''"Joe's Cafe"'', ''"1 Main St"'', ''"555-1111"'', ''""'', ''4'', [], ''""'']\<close>
    \<open>csv_cells integer_text cafe
      = [''"Joe's Cafe"'', ''"1 Main St"'', ''"555-1111"'', ''""'', ''4'', [], ''""'']\<close>
    by (simp_all add: csv_cells_def lead_fields_def cafe_def js_or_def quoted_def dquote_def four)
  have missing: "no_text (website cafe)" "no_text (category cafe)"
    "absent (reviews_count (cafe\<lparr>reviews_count := JNull\<rparr>))" "rating cafe = JNum 4"
    by (simp_all add: cafe_def no_text_def absent_def)
  from missing_fields_keep_columns [of integer_text "[]" "cafe\<lparr>reviews_count := JNull\<rparr>" "[]"]
  have export: \<open>exportToCSV integer_text ([] @ cafe\<lparr>reviews_count := JNull\<rparr> # [])
      = Downloaded ''Name,Address,Phone,Website,Rating,Reviews,Category\<newline>"Joe's Cafe","1 Main St","555-1111","",4,,""''\<close>
    by (simp add: cells comma_def newline_def)
  from missing export show ?thesis
    by (simp add: cells)
qed

text \<open>
  C6, as amended. The export of the empty collection produces no CSV document: it alerts
  \<^verbatim>\<open>No leads to export\<close> and returns. A document is produced for exactly the collections
  that are not empty, and it then starts with the header row and a line feed.
\<close>

theorem export_of_nothing_alerts:
  "exportToCSV show_num [] = Alerted ''No leads to export''
   \<and> (exported_text (exportToCSV show_num ls) = None \<longleftrightarrow> ls = [])
   \<and> (ls \<noteq> [] \<longrightarrow>
        (\<exists>rest. exported_text (exportToCSV show_num ls)
                  = Some (''Name,Address,Phone,Website,Rating,Reviews,Category'' @ newline # rest)))"
  by (cases ls) (simp_all add: exportToCSV_def join_str_Cons header_line)

theorem export_of_nothing_alerts_witness:
  "[cafe] \<noteq> [] \<and> exported_text (exportToCSV integer_text [cafe]) \<noteq> None
   \<and> exportToCSV integer_text [] = Alerted ''No leads to export''"
  using export_of_nothing_alerts [of integer_text "[cafe]"]
  by simp

theorem export_of_nothing_is_no_document:
  "exportToCSV integer_text [] = Alerted ''No leads to export''
   \<and> exported_text (exportToCSV integer_text []) = None"
  by (simp add: exportToCSV_def)

text \<open>
  C9. When the rating of a lead is present and equal to 0, the row the export writes for
  it has the empty field in the Rating column, and the whole export is the one of the same
  collection with the rating absent; the same holds of the reviews count and its column.
\<close>

theorem zero_numeric_exported_as_absent:
  "(rating l = JNum 0 \<longrightarrow>
      exportToCSV show_num (xs @ l # ys) =
        Downloaded
          (''Name,Address,Phone,Website,Rating,Reviews,Category'' @
           concat (map (\<lambda>k. newline # lead_line show_num k) xs) @
           newline # quoted (to_string show_num (name l)) @
           comma # quoted (to_string show_num (js_or (address l) (JStr []))) @
           comma # quoted (to_string show_num (js_or (phone l) (JStr []))) @
           comma # quoted (to_string show_num (js_or (website l) (JStr []))) @
           comma # [] @
           comma # join_elem show_num (js_or (reviews_count l) (JStr [])) @
           comma # quoted (to_string show_num (js_or (category l) (JStr []))) @
           concat (map (\<lambda>k. newline # lead_line show_num k) ys))
      \<and> csv_cells show_num l ! 4 = []
      \<and> exportToCSV show_num (xs @ l # ys)
          = exportToCSV show_num (xs @ l\<lparr>rating := JUndefined\<rparr> # ys))
   \<and> (reviews_count l = JNum 0 \<longrightarrow>
      exportToCSV show_num (xs @ l # ys) =
        Downloaded
          (''Name,Address,Phone,Website,Rating,Reviews,Category'' @
           concat (map (\<lambda>k. newline # lead_line show_num k) xs) @
           newline # quoted (to_string show_num (name l)) @
           comma # quoted (to_string show_num (js_or (address l) (JStr []))) @
           comma # quoted (to_string show_num (js_or (phone l) (JStr []))) @
           comma # quoted (to_string show_num (js_or (website l) (JStr []))) @
           comma # join_elem show_num (js_or (rating l) (JStr [])) @
           comma # [] @
           comma # quoted (to_string show_num (js_or (category l) (JStr []))) @
           concat (map (\<lambda>k. newline # lead_line show_num k) ys))
      \<and> csv_cells show_num l ! 5 = []
      \<and> exportToCSV show_num (xs @ l # ys)
          = exportToCSV show_num (xs @ l\<lparr>reviews_count := JUndefined\<rparr> # ys))"
proof -
  have export: "exportToCSV show_num (xs @ k # ys) =
      Downloaded
        (''Name,Address,Phone,Website,Rating,Reviews,Category'' @
         concat (map (\<lambda>k. newline # lead_line show_num k) xs) @
         newline # lead_line show_num k @
         concat (map (\<lambda>k. newline # lead_line show_num k) ys))" for k
    by (simp add: exportToCSV_def join_str_Cons header_line comp_def)
  have row: "lead_line show_num l =
      quoted (to_string show_num (name l)) @
      comma # quoted (to_string show_num (js_or (address l) (JStr []))) @
      comma # quoted (to_string show_num (js_or (phone l) (JStr []))) @
      comma # quoted (to_string show_num (js_or (website l) (JStr []))) @
      comma # join_elem show_num (js_or (rating l) (JStr [])) @
      comma # join_elem show_num (js_or (reviews_count l) (JStr [])) @
      comma # quoted (to_string show_num (js_or (category l) (JStr [])))"
    by (simp add: lead_line_def array_join_def lead_fields_def)
  have zero: "join_elem show_num (js_or (JNum 0) (JStr [])) = []"
    by (simp add: js_or_def)
  have first: "exportToCSV show_num (xs @ l # ys) =
        Downloaded
          (''Name,Address,Phone,Website,Rating,Reviews,Category'' @
           concat (map (\<lambda>k. newline # lead_line show_num k) xs) @
           newline # quoted (to_string show_num (name l)) @
           comma # quoted (to_string show_num (js_or (address l) (JStr []))) @
           comma # quoted (to_string show_num (js_or (phone l) (JStr []))) @
           comma # quoted (to_string show_num (js_or (website l) (JStr []))) @
           comma # [] @
           comma # join_elem show_num (js_or (reviews_count l) (JStr [])) @
           comma # quoted (to_string show_num (js_or (category l) (JStr []))) @
           concat (map (\<lambda>k. newline # lead_line show_num k) ys))
      \<and> csv_cells show_num l ! 4 = []
      \<and> exportToCSV show_num (xs @ l # ys)
          = exportToCSV show_num (xs @ l\<lparr>rating := JUndefined\<rparr> # ys)"
    if z: "rating l = JNum 0"
  proof -
    have same: "lead_line show_num (l\<lparr>rating := JUndefined\<rparr>) = lead_line show_num l"
      using z by (simp add: lead_line_def array_join_def lead_fields_def js_or_def)
    have cell: "csv_cells show_num l ! 4 = []"
      using z by (simp add: csv_cells_def lead_fields_def js_or_def)
    have written: "exportToCSV show_num (xs @ l # ys) =
        Downloaded
          (''Name,Address,Phone,Website,Rating,Reviews,Category'' @
           concat (map (\<lambda>k. newline # lead_line show_num k) xs) @
           newline # quoted (to_string show_num (name l)) @
           comma # quoted (to_string show_num (js_or (address l) (JStr []))) @
           comma # quoted (to_string show_num (js_or (phone l) (JStr []))) @
           comma # quoted (to_string show_num (js_or (website l) (JStr []))) @
           comma # [] @
           comma # join_elem show_num (js_or (reviews_count l) (JStr [])) @
           comma # quoted (to_string show_num (js_or (category l) (JStr []))) @
           concat (map (\<lambda>k. newline # lead_line show_num k) ys))"
      unfolding export [of l] row z zero by simp
    have "exportToCSV show_num (xs @ l # ys)
        = exportToCSV show_num (xs @ l\<lparr>rating := JUndefined\<rparr> # ys)"
      unfolding export same ..
    with written cell show ?thesis by blast
  qed
  have second: "exportToCSV show_num (xs @ l # ys) =
        Downloaded
          (''Name,Address,Phone,Website,Rating,Reviews,Category'' @
           concat (map (\<lambda>k. newline # lead_line show_num k) xs) @
           newline # quoted (to_string show_num (name l)) @
           comma # quoted (to_string show_num (js_or (address l) (JStr []))) @
           comma # quoted (to_string show_num (js_or (phone l) (JStr []))) @
           comma # quoted (to_string show_num (js_or (website l) (JStr []))) @
           comma # join_elem show_num (js_or (rating l) (JStr [])) @
           comma # [] @
           comma # quoted (to_string show_num (js_or (category l) (JStr []))) @
           concat (map (\<lambda>k. newline # lead_line show_num k) ys))
      \<and> csv_cells show_num l ! 5 = []
      \<and> exportToCSV show_num (xs @ l # ys)
          = exportToCSV show_num (xs @ l\<lparr>reviews_count := JUndefined\<rparr> # ys)"
    if z: "reviews_count l = JNum 0"
  proof -
    have same: "lead_line show_num (l\<lparr>reviews_count := JUndefined\<rparr>) = lead_line show_num l"
      using z by (simp add: lead_line_def array_join_def lead_fields_def js_or_def)
    have cell: "csv_cells show_num l ! 5 = []"
      using z by (simp add: csv_cells_def lead_fields_def js_or_def)
    have written: "exportToCSV show_num (xs @ l # ys) =
        Downloaded
          (''Name,Address,Phone,Website,Rating,Reviews,Category'' @
           concat (map (\<lambda>k. newline # lead_line show_num k) xs) @
           newline # quoted (to_string show_num (name l)) @
           comma # quoted (to_string show_num (js_or (address l) (JStr []))) @
           comma # quoted (to_string show_num (js_or (phone l) (JStr []))) @
           comma # quoted (to_string show_num (js_or (website l) (JStr []))) @
           comma # join_elem show_num (js_or (rating l) (JStr [])) @
           comma # [] @
           comma # quoted (to_string show_num (js_or (category l) (JStr []))) @
           concat (map (\<lambda>k. newline # lead_line show_num k) ys))"
      unfolding export [of l] row z zero by simp
    have "exportToCSV show_num (xs @ l # ys)
        = exportToCSV show_num (xs @ l\<lparr>reviews_count := JUndefined\<rparr> # ys)"
      unfolding export same ..
    with written cell show ?thesis by blast
  qed
  from first second show ?thesis by blast
qed

theorem zero_numeric_exported_as_absent_witness:
  \<open>reviews_count cafe = JNum 0
   \<and> exportToCSV integer_text ([] @ cafe # [])
       = Downloaded ''Name,Address,Phone,Website,Rating,Reviews,Category\<newline>"Joe's Cafe","1 Main St","555-1111","",4,,""''
   \<and> csv_cells integer_text cafe ! 5 = []
   \<and> exportToCSV integer_text ([] @ cafe # [])
       = exportToCSV integer_text ([] @ cafe\<lparr>reviews_count := JUndefined\<rparr> # [])
   \<and> rating (cafe\<lparr>rating := JNum 0\<rparr>) = JNum 0
   \<and> exportToCSV integer_text ([] @ cafe\<lparr>rating := JNum 0\<rparr> # [])
       = Downloaded ''Name,Address,Phone,Website,Rating,Reviews,Category\<newline>"Joe's Cafe","1 Main St","555-1111","",,,""''
   \<and> csv_cells integer_text (cafe\<lparr>rating := JNum 0\<rparr>) ! 4 = []\<close>
proof -
  have four: "integer_text 4 = ''4''"
    by (simp add: integer_text_def digits.simps)
  have z1: "reviews_count cafe = JNum 0" and z2: "rating (cafe\<lparr>rating := JNum 0\<rparr>) = JNum 0"
    by (simp_all add: cafe_def)
  note r1 = zero_numeric_exported_as_absent
    [of cafe integer_text "[]" "[]", THEN conjunct2, rule_format, OF z1]
  note r2 = zero_numeric_exported_as_absent
    [of "cafe\<lparr>rating := JNum 0\<rparr>" integer_text "[]" "[]", THEN conjunct1, rule_format, OF z2]
  from r1 [THEN conjunct1]
  have e1: \<open>exportToCSV integer_text ([] @ cafe # [])
      = Downloaded ''Name,Address,Phone,Website,Rating,Reviews,Category\<newline>"Joe's Cafe","1 Main St","555-1111","",4,,""''\<close>
    by (simp add: cafe_def js_or_def quoted_def dquote_def comma_def newline_def four)
  from r2 [THEN conjunct1]
  have e2: \<open>exportToCSV integer_text ([] @ cafe\<lparr>rating := JNum 0\<rparr> # [])
      = Downloaded ''Name,Address,Phone,Website,Rating,Reviews,Category\<newline>"Joe's Cafe","1 Main St","555-1111","",,,""''\<close>
    by (simp add: cafe_def js_or_def quoted_def dquote_def comma_def newline_def)
  from z1 z2 e1 e2 r1 [THEN conjunct2] r2 [THEN conjunct2, THEN conjunct1]
  show ?thesis by (intro conjI) blast+
qed

section \<open>The scrape\<close>

text \<open>
  C3. With an empty query text, \<^verbatim>\<open>startScraping\<close> shows the validation error and returns:
  no request is handed to \<^verbatim>\<open>fetch\<close>, and nothing else of the page changes.
\<close>

theorem empty_query_never_fetches:
  "query f = [] \<Longrightarrow>
     startScraping_begin f s
       = (s\<lparr>resultsContent := ErrorBox ''Please enter a search query''\<rparr>, None)
     \<and> startScraping show_num net f s
         = (s\<lparr>resultsContent := ErrorBox ''Please enter a search query''\<rparr>, [])"
  by (simp add: startScraping_def startScraping_begin_def showError_def)

theorem empty_query_never_fetches_witness:
  "query \<lparr>query = [], location = ''Pune'', maxResults = ''10''\<rparr> = []
   \<and> startScraping integer_text cafes_server
        \<lparr>query = [], location = ''Pune'', maxResults = ''10''\<rparr> fresh_page
       = (fresh_page\<lparr>resultsContent := ErrorBox ''Please enter a search query''\<rparr>, [])"
  using empty_query_never_fetches
    [of "\<lparr>query = [], location = ''Pune'', maxResults = ''10''\<rparr>" fresh_page integer_text cafes_server]
  by simp

text \<open>
  C10. The check of the query rejects the empty text and nothing else: a query of
  whitespace only, when it is not empty, passes it, and the request is sent with that
  query in its body.
\<close>

theorem only_empty_query_rejected:
  "(snd (startScraping_begin f s) = None \<longleftrightarrow> query f = [])
   \<and> (query f \<noteq> [] \<longrightarrow> (\<forall>c \<in> set (query f). whitespace c) \<longrightarrow>
        snd (startScraping_begin f s) = Some f
        \<and> snd (startScraping show_num net f s) = [f])"
  by (simp add: startScraping_def startScraping_begin_def)

theorem only_empty_query_rejected_witness:
  "query \<lparr>query = ''  '', location = [], maxResults = ''10''\<rparr> \<noteq> []
   \<and> list_all whitespace (query \<lparr>query = ''  '', location = [], maxResults = ''10''\<rparr>)
   \<and> snd (startScraping integer_text offline
            \<lparr>query = ''  '', location = [], maxResults = ''10''\<rparr> fresh_page)
       = [\<lparr>query = ''  '', location = [], maxResults = ''10''\<rparr>]"
  using only_empty_query_rejected
    [of "\<lparr>query = ''  '', location = [], maxResults = ''10''\<rparr>" fresh_page integer_text offline]
  by (simp add: whitespace_def)

text \<open>
  C7, as amended. A scrape that fails (the query is empty, the request throws, or the reply
  carries an error) leaves the stored leads as they were, so that an export afterwards
  gives what it gave before, and leaves the export section as it was; the results area
  shows the error message in place of the leads.
\<close>

theorem failed_scrape_keeps_leads:
  "query f = [] \<or> failed (net f) \<Longrightarrow>
     leads (fst (startScraping show_num net f s)) = leads s
     \<and> exportToCSV show_num (leads (fst (startScraping show_num net f s)))
         = exportToCSV show_num (leads s)
     \<and> exportSectionDisplay (fst (startScraping show_num net f s)) = exportSectionDisplay s
     \<and> (\<exists>m. resultsContent (fst (startScraping show_num net f s)) = ErrorBox m)"
  by (cases "net f")
     (auto simp add: startScraping_def startScraping_begin_def startScraping_resume_def
       showError_def showLoading_def clearResults_def)

theorem failed_scrape_keeps_leads_witness:
  "(query cafes_query = [] \<or> failed (offline cafes_query))
   \<and> leads (fst (startScraping integer_text cafes_server cafes_query fresh_page)) = [cafe]
   \<and> leads (fst (startScraping integer_text offline cafes_query
        (fst (startScraping integer_text cafes_server cafes_query fresh_page)))) = [cafe]
   \<and> exportSectionDisplay (fst (startScraping integer_text offline cafes_query
        (fst (startScraping integer_text cafes_server cafes_query fresh_page)))) = ''block''"
  using failed_scrape_keeps_leads [of cafes_query offline integer_text
      "fst (startScraping integer_text cafes_server cafes_query fresh_page)"]
  by (simp add: startScraping_def startScraping_begin_def startScraping_resume_def showError_def
       showLoading_def clearResults_def cafes_server_def offline_def cafes_query_def cafes_reply_def
       displayResults_def updateStats_def showExportSection_def)

theorem failed_scrape_replaces_display:
  "resultsContent (fst (startScraping integer_text cafes_server cafes_query fresh_page))
     = LeadItems [LeadElement cafe 0]
   \<and> failed (offline cafes_query)
   \<and> resultsContent (fst (startScraping integer_text offline cafes_query
        (fst (startScraping integer_text cafes_server cafes_query fresh_page))))
     = ErrorBox ''An error occurred while scraping. Please try again.''"
  by (simp add: startScraping_def startScraping_begin_def startScraping_resume_def showError_def
       showLoading_def clearResults_def cafes_server_def offline_def cafes_query_def cafes_reply_def
       displayResults_def updateStats_def showExportSection_def generic_failure_def)

section \<open>One scrape at a time\<close>

lemma resume_enables: "scrapeBtnDisabled (startScraping_resume show_num r s) = False"
  by (simp add: startScraping_resume_def showLoading_def split: outcome.splits option.splits)

lemma begin_disables:
  "startScraping_begin f s = (s', ro) \<Longrightarrow>
     scrapeBtnDisabled s' = (if ro = None then scrapeBtnDisabled s else True)"
  by (auto simp add: startScraping_begin_def showError_def showLoading_def clearResults_def
      split: if_splits)

lemma deliver_single_flight:
  assumes "single_flight \<sigma>"
  shows "single_flight (deliver show_num e \<sigma>)"
proof (cases e)
  case (Submit f)
  show ?thesis
  proof (cases "scrapeBtnDisabled (page \<sigma>)")
    case True
    with Submit assms show ?thesis by simp
  next
    case False
    with assms have idle: "in_flight \<sigma> = []" by (simp add: single_flight_def)
    obtain s' ro where b: "startScraping_begin f (page \<sigma>) = (s', ro)" by fastforce
    from begin_disables [OF b] False idle Submit b show ?thesis
      by (cases ro) (simp_all add: single_flight_def)
  qed
next
  case (Settle i r)
  show ?thesis
  proof (cases "i < length (in_flight \<sigma>)")
    case True
    with assms have "length (in_flight \<sigma>) = 1" and "i = 0" by (simp_all add: single_flight_def)
    with Settle True show ?thesis by (simp add: single_flight_def resume_enables)
  next
    case False
    with Settle assms show ?thesis by simp
  qed
qed

lemma run_single_flight: "single_flight \<sigma> \<Longrightarrow> single_flight (run show_num evs \<sigma>)"
  unfolding run_def by (induction evs arbitrary: \<sigma>) (simp_all add: deliver_single_flight)

text \<open>
  C8. In a session that starts with the submit control enabled and nothing in flight,
  whatever submits and answers follow, at most one request is without its answer; the
  submit control is disabled exactly while there is one, on the success path and on every
  failure path; and while there is one a submit starts nothing.
\<close>

theorem one_scrape_in_flight:
  assumes "\<not> scrapeBtnDisabled s0"
  shows "length (in_flight (run show_num evs \<lparr>page = s0, in_flight = []\<rparr>)) \<le> 1
    \<and> (scrapeBtnDisabled (page (run show_num evs \<lparr>page = s0, in_flight = []\<rparr>))
         \<longleftrightarrow> in_flight (run show_num evs \<lparr>page = s0, in_flight = []\<rparr>) \<noteq> [])
    \<and> (in_flight (run show_num evs \<lparr>page = s0, in_flight = []\<rparr>) \<noteq> [] \<longrightarrow>
         deliver show_num (Submit f) (run show_num evs \<lparr>page = s0, in_flight = []\<rparr>)
           = run show_num evs \<lparr>page = s0, in_flight = []\<rparr>)"
proof -
  from assms have "single_flight \<lparr>page = s0, in_flight = []\<rparr>"
    by (simp add: single_flight_def)
  then have "single_flight (run show_num evs \<lparr>page = s0, in_flight = []\<rparr>)"
    by (rule run_single_flight)
  then show ?thesis by (simp add: single_flight_def)
qed

theorem one_scrape_in_flight_witness:
  "\<not> scrapeBtnDisabled fresh_page
   \<and> in_flight (run integer_text [Submit cafes_query, Submit cafes_query]
        \<lparr>page = fresh_page, in_flight = []\<rparr>) = [cafes_query]
   \<and> length (in_flight (run integer_text [Submit cafes_query, Submit cafes_query]
        \<lparr>page = fresh_page, in_flight = []\<rparr>)) \<le> 1
   \<and> deliver integer_text (Submit cafes_query)
        (run integer_text [Submit cafes_query, Submit cafes_query] \<lparr>page = fresh_page, in_flight = []\<rparr>)
       = run integer_text [Submit cafes_query, Submit cafes_query] \<lparr>page = fresh_page, in_flight = []\<rparr>"
  using one_scrape_in_flight
    [of fresh_page integer_text "[Submit cafes_query, Submit cafes_query]" cafes_query]
  by (simp add: fresh_page_def run_def cafes_query_def startScraping_begin_def showLoading_def
      clearResults_def)

section \<open>Reading the export back\<close>

lemma special_chars_differ:
  "comma \<noteq> dquote" "newline \<noteq> dquote" "newline \<noteq> comma"
  by (simp_all add: comma_def dquote_def newline_def)

lemma feed_escaped:
  "fold csv_feed (spec_escape s) (Quoted, fld, rec, recs) = (Quoted, rev s @ fld, rec, recs)"
  by (induction s arbitrary: fld) (simp_all add: spec_escape_def)

lemma feed_quoted:
  assumes "m = RecordStart \<or> m = FieldStart"
  shows "fold csv_feed (spec_quoted s) (m, [], rec, recs) = (QuoteSeen, rev s, rec, recs)"
  using assms by (auto simp add: spec_quoted_def feed_escaped)

lemma feed_bare:
  assumes "bare_safe s" and "m = RecordStart \<or> m = FieldStart \<or> m = Bare"
  shows "fold csv_feed s (m, fld, rec, recs) = (if s = [] then m else Bare, rev s @ fld, rec, recs)"
  using assms
proof (induction s arbitrary: m fld)
  case Nil
  then show ?case by simp
next
  case (Cons c s)
  from Cons.prems have c: "c \<noteq> dquote" "c \<noteq> comma" "c \<noteq> newline" and s: "bare_safe s"
    by (auto simp add: bare_safe_def)
  from Cons.prems(2) c have "csv_feed c (m, fld, rec, recs) = (Bare, c # fld, rec, recs)"
    by auto
  with Cons.IH [OF s, of Bare "c # fld"] show ?case by simp
qed

lemma feed_cell:
  assumes "cell_of c v" and "m = RecordStart \<or> m = FieldStart"
  shows "\<exists>m'. m' \<noteq> Quoted \<and> (m' = RecordStart \<longrightarrow> m = RecordStart \<and> c = [])
           \<and> fold csv_feed c (m, [], rec, recs) = (m', rev v, rec, recs)"
proof (cases "c = spec_quoted v")
  case True
  with feed_quoted [OF assms(2), of v rec recs] show ?thesis by simp
next
  case False
  with assms(1) have cv: "c = v" and safe: "bare_safe v" by (simp_all add: cell_of_def)
  from assms(2) have "m = RecordStart \<or> m = FieldStart \<or> m = Bare" by blast
  from feed_bare [OF safe this, of "[]" rec recs] cv assms(2) show ?thesis by auto
qed

lemma feed_comma:
  "m \<noteq> Quoted \<Longrightarrow> csv_feed comma (m, fld, rec, recs) = (FieldStart, [], rev fld # rec, recs)"
  by (simp add: special_chars_differ)

lemma feed_newline:
  "m \<noteq> Quoted \<Longrightarrow>
     csv_feed newline (m, fld, rec, recs) = (RecordStart, [], [], rev (rev fld # rec) # recs)"
  by (simp add: special_chars_differ)

lemma feed_cells:
  assumes "list_all2 cell_of cs vs" and "cs \<noteq> []" and "m = RecordStart \<or> m = FieldStart"
  shows "\<exists>m' fld' rec'. m' \<noteq> Quoted \<and> (m' = RecordStart \<longrightarrow> m = RecordStart \<and> hd cs = [])
           \<and> rev fld' # rec' = rev vs @ rec
           \<and> fold csv_feed (join_str [comma] cs) (m, [], rec, recs) = (m', fld', rec', recs)"
  using assms
proof (induction cs vs arbitrary: m rec rule: list_all2_induct)
  case Nil
  then show ?case by simp
next
  case (Cons c cs v vs)
  from feed_cell [OF Cons.hyps(1) Cons.prems(2), of rec recs]
  obtain m1 where m1: "m1 \<noteq> Quoted" "m1 = RecordStart \<longrightarrow> m = RecordStart \<and> c = []"
    and f1: "fold csv_feed c (m, [], rec, recs) = (m1, rev v, rec, recs)" by blast
  show ?case
  proof (cases "cs = []")
    case True
    with Cons.hyps(2) have "vs = []" by simp
    with True m1 f1 show ?thesis by simp
  next
    case False
    from Cons.IH [OF False, of FieldStart "v # rec"]
    obtain m' fld' rec' where r: "m' \<noteq> Quoted" "m' \<noteq> RecordStart"
      "rev fld' # rec' = rev vs @ v # rec"
      "fold csv_feed (join_str [comma] cs) (FieldStart, [], v # rec, recs) = (m', fld', rec', recs)"
      by auto
    from False have split: "join_str [comma] (c # cs) = c @ comma # join_str [comma] cs"
      by (cases cs) simp_all
    have "fold csv_feed (join_str [comma] (c # cs)) (m, [], rec, recs) = (m', fld', rec', recs)"
      unfolding split using f1 feed_comma [OF m1(1)] r(4) by simp
    with r show ?thesis by simp
  qed
qed

lemma feed_line:
  assumes "line_of cs vs"
  shows "\<exists>m' fld' rec'. m' \<noteq> Quoted \<and> m' \<noteq> RecordStart \<and> rev (rev fld' # rec') = vs
           \<and> fold csv_feed (join_str [comma] cs) (RecordStart, [], [], recs) = (m', fld', rec', recs)"
proof -
  from assms have a: "list_all2 cell_of cs vs" "cs \<noteq> []" "hd cs \<noteq> []"
    by (simp_all add: line_of_def)
  from feed_cells [OF a(1) a(2), of RecordStart "[]" recs] a(3)
  obtain m' fld' rec' where r: "m' \<noteq> Quoted" "m' \<noteq> RecordStart" "rev fld' # rec' = rev vs"
    "fold csv_feed (join_str [comma] cs) (RecordStart, [], [], recs) = (m', fld', rec', recs)"
    by auto
  from r(3) have "rev (rev fld' # rec') = vs" by simp
  with r show ?thesis by blast
qed

lemma parse_lines:
  assumes "list_all2 line_of css vss" and "css \<noteq> []"
  shows "csv_finish (fold csv_feed (join_str [newline] (map (join_str [comma]) css))
           (RecordStart, [], [], recs)) = rev recs @ vss"
  using assms
proof (induction css vss arbitrary: recs rule: list_all2_induct)
  case Nil
  then show ?case by simp
next
  case (Cons cs css vs vss)
  from feed_line [OF Cons.hyps(1), of recs]
  obtain m' fld' rec' where r: "m' \<noteq> Quoted" "m' \<noteq> RecordStart" "rev (rev fld' # rec') = vs"
    "fold csv_feed (join_str [comma] cs) (RecordStart, [], [], recs) = (m', fld', rec', recs)"
    by blast
  show ?case
  proof (cases "css = []")
    case True
    with Cons.hyps(2) have "vss = []" by simp
    with True r show ?thesis by simp
  next
    case False
    then have split: "join_str [newline] (map (join_str [comma]) (cs # css))
        = join_str [comma] cs @ newline # join_str [newline] (map (join_str [comma]) css)"
      by (cases css) simp_all
    from Cons.IH [OF False, of "vs # recs"] r feed_newline [OF r(1), of fld' rec' recs]
    show ?thesis unfolding split by simp
  qed
qed

lemma headers_line_of: "line_of headers headers"
  by (simp add: line_of_def cell_of_def headers_def bare_safe_def dquote_def comma_def newline_def)

lemma spec_escape_id: "dquote \<notin> set s \<Longrightarrow> spec_escape s = s"
  by (induction s) (auto simp add: spec_escape_def)

lemma quoted_is_spec_quoted: "dquote \<notin> set s \<Longrightarrow> quoted s = spec_quoted s"
  by (simp add: quoted_def spec_quoted_def spec_escape_id)

lemma quoted_nonempty: "quoted s \<noteq> []"
  by (simp add: quoted_def)

lemma name_cell:
  assumes "is_text v" and "dquote \<notin> set (text_of v)"
  shows "cell_of (quoted (to_string show_num v)) (text_of v)"
  using assms by (cases v) (simp_all add: is_text_def text_of_def cell_of_def quoted_is_spec_quoted)

lemma text_cell:
  assumes "optional_text v" and "dquote \<notin> set (text_of v)"
  shows "cell_of (quoted (to_string show_num (js_or v (JStr [])))) (text_of v)"
  using assms
  by (cases v)
     (simp_all add: optional_text_def absent_def is_text_def text_of_def cell_of_def js_or_def
        quoted_is_spec_quoted)

lemma number_cell:
  assumes "\<forall>q. bare_safe (show_num q)" and "optional_number v" and "v \<noteq> JNum 0"
  shows "cell_of (join_elem show_num (js_or v (JStr []))) (number_text show_num v)"
  using assms
  by (cases v)
     (simp_all add: optional_number_def absent_def number_text_def cell_of_def js_or_def
        bare_safe_def)

lemma lead_line_of:
  assumes "\<forall>q. bare_safe (show_num q)" and "lead_record l" and "nonzero_numbers l"
    and "quote_free l"
  shows "line_of (csv_cells show_num l) (record_texts show_num l)"
proof -
  from assms(2,4) have texts:
    "cell_of (quoted (to_string show_num (name l))) (text_of (name l))"
    "cell_of (quoted (to_string show_num (js_or (address l) (JStr [])))) (text_of (address l))"
    "cell_of (quoted (to_string show_num (js_or (phone l) (JStr [])))) (text_of (phone l))"
    "cell_of (quoted (to_string show_num (js_or (website l) (JStr [])))) (text_of (website l))"
    "cell_of (quoted (to_string show_num (js_or (category l) (JStr [])))) (text_of (category l))"
    by (simp_all add: lead_record_def quote_free_def name_cell text_cell)
  from assms(1,2,3) have numbers:
    "cell_of (join_elem show_num (js_or (rating l) (JStr []))) (number_text show_num (rating l))"
    "cell_of (join_elem show_num (js_or (reviews_count l) (JStr [])))
       (number_text show_num (reviews_count l))"
    by (simp_all add: lead_record_def nonzero_numbers_def number_cell)
  from texts numbers show ?thesis
    by (simp add: line_of_def csv_cells_def lead_fields_def record_texts_def quoted_nonempty)
qed

lemma export_lines:
  assumes "ls \<noteq> []"
  shows "exportToCSV show_num ls =
    Downloaded (join_str [newline] (map (join_str [comma]) (headers # map (csv_cells show_num) ls)))"
proof -
  have "map (lead_line show_num) ls = map (join_str [comma]) (map (csv_cells show_num) ls)"
    by (simp add: lead_line_def array_join_def csv_cells_def)
  with assms show ?thesis
    by (simp only: exportToCSV_def list.map) simp
qed

lemma digits_chars: "set (digits n) \<subseteq> set ''0123456789''"
proof (induction n rule: digits.induct)
  case (1 n)
  have last: "''0123456789'' ! (n mod 10) \<in> set ''0123456789''"
    by (rule nth_mem) simp
  show ?case
  proof (cases "n < 10")
    case True
    then have "''0123456789'' ! n \<in> set ''0123456789''" by (intro nth_mem) simp
    with True show ?thesis by (subst digits.simps) simp
  next
    case False
    with "1.IH" last show ?thesis by (subst digits.simps) simp
  qed
qed

lemma integer_text_bare: "bare_safe (integer_text q)"
proof -
  have "set (integer_text q) \<subseteq> set ''-'' \<union> set (digits (nat \<lfloor>\<bar>q\<bar>\<rfloor>))"
    by (auto simp add: integer_text_def)
  also have "\<dots> \<subseteq> set ''-'' \<union> set ''0123456789''"
    using digits_chars [of "nat \<lfloor>\<bar>q\<bar>\<rfloor>"] by (rule Un_mono [OF subset_refl])
  finally have chars: "set (integer_text q) \<subseteq> set ''-'' \<union> set ''0123456789''" .
  have "dquote \<notin> set ''-'' \<union> set ''0123456789''"
    "comma \<notin> set ''-'' \<union> set ''0123456789''"
    "newline \<notin> set ''-'' \<union> set ''0123456789''"
    by (simp_all add: dquote_def comma_def newline_def)
  with chars show ?thesis
    unfolding bare_safe_def by blast
qed

text \<open>
  C2, as amended. Let the text of a number hold no comma, double quote or line feed. Then
  for every collection of Lead Records that is not empty, in which no rating and no
  reviews count is 0 and no text field holds a double quote (so for every such collection
  whose fields hold no comma, double quote or line feed, and also when they hold commas or
  line feeds), the export produces a CSV text, and reading it gives the header row and then,
  for each lead in order, the same data field for field: each text as it is, each number as
  its decimal text, each missing value as the empty text. Nothing is said of text fields
  that hold a double quote.
\<close>

theorem csv_round_trip:
  assumes "\<forall>q. bare_safe (show_num q)" and "ls \<noteq> []"
    and "\<forall>l \<in> set ls. lead_record l \<and> nonzero_numbers l \<and> quote_free l"
  shows "map_option spec_parse_csv (exported_text (exportToCSV show_num ls))
           = Some (headers # map (record_texts show_num) ls)"
proof -
  have each: "\<forall>l \<in> set ls. line_of (csv_cells show_num l) (record_texts show_num l)"
    using assms(1,3) lead_line_of by blast
  have "list_all2 line_of (map (csv_cells show_num) ls) (map (record_texts show_num) ls)"
    unfolding list_all2_map1 list_all2_map2 list_all2_same using each .
  then have "list_all2 line_of (headers # map (csv_cells show_num) ls)
      (headers # map (record_texts show_num) ls)"
    using headers_line_of by simp
  from parse_lines [OF this, of "[]"] show ?thesis
    unfolding export_lines [OF assms(2)] spec_parse_csv_def by simp
qed

theorem csv_round_trip_witness:
  \<open>(\<forall>q. bare_safe (integer_text q)) \<and> [corner_cafe] \<noteq> []
   \<and> lead_record corner_cafe \<and> nonzero_numbers corner_cafe \<and> quote_free corner_cafe
   \<and> record_texts integer_text corner_cafe
       = [''Joe's, Cafe'', ''1 Main St\<newline>Pune'', ''555-1111'', [], ''4'', ''12'', []]
   \<and> map_option spec_parse_csv (exported_text (exportToCSV integer_text [corner_cafe]))
       = Some [headers, [''Joe's, Cafe'', ''1 Main St\<newline>Pune'', ''555-1111'', [], ''4'', ''12'', []]]\<close>
proof -
  have bare: "\<forall>q. bare_safe (integer_text q)"
    by (simp add: integer_text_bare)
  have four: "integer_text 4 = ''4''" and twelve: "integer_text 12 = ''12''"
    by (simp_all add: integer_text_def digits.simps)
  have rec: "lead_record corner_cafe" "nonzero_numbers corner_cafe" "quote_free corner_cafe"
    by (simp_all add: lead_record_def nonzero_numbers_def quote_free_def corner_cafe_def
        is_text_def optional_text_def optional_number_def absent_def text_of_def dquote_def)
  have texts: "record_texts integer_text corner_cafe
      = [''Joe's, Cafe'', ''1 Main St\<newline>Pune'', ''555-1111'', [], ''4'', ''12'', []]"
    by (simp add: record_texts_def corner_cafe_def text_of_def number_text_def four twelve)
  from csv_round_trip [OF bare, of "[corner_cafe]"] rec
  have "map_option spec_parse_csv (exported_text (exportToCSV integer_text [corner_cafe]))
      = Some [headers, record_texts integer_text corner_cafe]"
    by simp
  with bare rec texts show ?thesis by simp
qed

theorem nothing_or_zero_not_read_back:
  \<open>exported_text (exportToCSV integer_text []) = None
   \<and> lead_record cafe \<and> list_all bare_safe (record_texts integer_text cafe)
   \<and> record_texts integer_text cafe
       = [''Joe's Cafe'', ''1 Main St'', ''555-1111'', [], ''4'', ''0'', []]
   \<and> map_option spec_parse_csv (exported_text (exportToCSV integer_text [cafe]))
       = Some [headers, [''Joe's Cafe'', ''1 Main St'', ''555-1111'', [], ''4'', [], []]]\<close>
proof -
  have four: "integer_text 4 = ''4''" and zero: "integer_text 0 = ''0''"
    by (simp_all add: integer_text_def digits.simps)
  have no_export: "exported_text (exportToCSV integer_text []) = None"
    by (simp add: exportToCSV_def)
  have rec: "lead_record cafe"
    by (simp add: lead_record_def cafe_def is_text_def optional_text_def optional_number_def
        absent_def)
  have texts: "record_texts integer_text cafe
      = [''Joe's Cafe'', ''1 Main St'', ''555-1111'', [], ''4'', ''0'', []]"
    by (simp add: record_texts_def cafe_def text_of_def number_text_def four zero)
  have plain: "list_all bare_safe (record_texts integer_text cafe)"
    unfolding texts by (simp add: bare_safe_def dquote_def comma_def newline_def)
  have cells: \<open>csv_cells integer_text cafe
      = [''"Joe's Cafe"'', ''"1 Main St"'', ''"555-1111"'', ''""'', ''4'', [], ''""'']\<close>
    by (simp add: csv_cells_def lead_fields_def cafe_def js_or_def quoted_def dquote_def four)
  have "line_of (csv_cells integer_text cafe)
      [''Joe's Cafe'', ''1 Main St'', ''555-1111'', [], ''4'', [], []]"
    unfolding cells
    by (simp add: line_of_def cell_of_def spec_quoted_def spec_escape_def bare_safe_def
        dquote_def comma_def newline_def)
  then have "list_all2 line_of (headers # map (csv_cells integer_text) [cafe])
      [headers, [''Joe's Cafe'', ''1 Main St'', ''555-1111'', [], ''4'', [], []]]"
    using headers_line_of by simp
  from parse_lines [OF this, of "[]"]
  have reread: "map_option spec_parse_csv (exported_text (exportToCSV integer_text [cafe]))
      = Some [headers, [''Joe's Cafe'', ''1 Main St'', ''555-1111'', [], ''4'', [], []]]"
    unfolding export_lines [of "[cafe]" integer_text, simplified] spec_parse_csv_def by simp
  from no_export rec plain texts reread show ?thesis by (intro conjI)
qed

end
